theory Spec2Isabelle
  imports Main "HOL-Library.Word" "HOL-Library.Char_ord" "HOL-Library.List_Lexorder"
    "HOL-Library.Monad_Syntax"
begin

section \<open>Instants and locations\<close>

text \<open>
  A Go \<open>time.Time\<close> is an absolute instant together with a location. The instant is kept
  as nanoseconds since the Unix epoch (an unbounded \<open>int\<close>: the instants of this program
  are the present and parsed years 0000 to 9999, far from the 64-bit limits). A location is
  the offset in force before its first transition and the ascending list of its
  transitions, each a Unix second and the offset in force from then on.
\<close>

record Location =
  zone0 :: int
  tx :: "(int \<times> int) list"

record Time =
  unixNano :: int
  location :: Location

definition UTC :: Location where
  "UTC = \<lparr>zone0 = 0, tx = []\<rparr>"

definition FixedZone :: "int \<Rightarrow> Location" where
  "FixedZone off = \<lparr>zone0 = off, tx = []\<rparr>"

definition Second :: int where "Second = 1000000000"
definition Hour :: int where "Hour = 3600 * Second"

definition alpha :: int where "alpha = - (2 ^ 63)"
definition omega :: int where "omega = 2 ^ 63 - 1"

text \<open>\<open>Location.lookup\<close>: the offset in force at a Unix second, and the bounds of its validity.\<close>

fun lookup_tx :: "int \<Rightarrow> int \<Rightarrow> (int \<times> int) list \<Rightarrow> int \<Rightarrow> int \<times> int \<times> int" where
  "lookup_tx off start [] sec = (off, start, omega)"
| "lookup_tx off start ((w, o') # rest) sec =
     (if sec < w then (off, start, w) else lookup_tx o' w rest sec)"

definition lookup :: "Location \<Rightarrow> int \<Rightarrow> int \<times> int \<times> int" where
  "lookup l sec = lookup_tx (zone0 l) alpha (tx l) sec"

definition unixSec :: "Time \<Rightarrow> int" where
  "unixSec t = unixNano t div Second"

definition Add :: "Time \<Rightarrow> int \<Rightarrow> Time" where
  "Add t d = t\<lparr>unixNano := unixNano t + d\<rparr>"

definition After :: "Time \<Rightarrow> Time \<Rightarrow> bool" where
  "After t u = (unixNano t > unixNano u)"

definition Equal :: "Time \<Rightarrow> Time \<Rightarrow> bool" where
  "Equal t u = (unixNano t = unixNano u)"

definition toUTC :: "Time \<Rightarrow> Time" where
  "toUTC t = t\<lparr>location := UTC\<rparr>"

subsection \<open>The civil calendar\<close>

definition isLeap :: "int \<Rightarrow> bool" where
  "isLeap y = (y mod 4 = 0 \<and> (y mod 100 \<noteq> 0 \<or> y mod 400 = 0))"

text \<open>Days before each month of a non-leap year (index 0 is January, index 12 the year's end).\<close>

definition daysBefore :: "nat \<Rightarrow> int" where
  "daysBefore k = [0, 31, 59, 90, 120, 151, 181, 212, 243, 273, 304, 334, 365] ! k"

text \<open>Days before month \<open>k\<close> (0-based) of year \<open>y\<close>.\<close>

definition monthStart :: "int \<Rightarrow> nat \<Rightarrow> int" where
  "monthStart y k = daysBefore k + (if isLeap y \<and> 2 \<le> k then 1 else 0)"

definition daysIn :: "int \<Rightarrow> int \<Rightarrow> int" where
  "daysIn m y =
     (if m = 2 \<and> isLeap y then 29 else daysBefore (nat m) - daysBefore (nat m - 1))"

text \<open>Days from 0001-01-01 to the first of January of year \<open>y\<close>; the Unix epoch is day 719162.\<close>

definition daysBeforeYear :: "int \<Rightarrow> int" where
  "daysBeforeYear y = 365 * (y - 1) + (y - 1) div 4 - (y - 1) div 100 + (y - 1) div 400"

definition unixEpochDay :: int where "unixEpochDay = 719162"

text \<open>Days from the Unix epoch to a date; the month is normalised into the year as \<open>time.Date\<close> does.\<close>

definition daysFromCivil :: "int \<Rightarrow> int \<Rightarrow> int \<Rightarrow> int" where
  "daysFromCivil y m d =
     (let y' = y + (m - 1) div 12; k = nat ((m - 1) mod 12)
      in daysBeforeYear y' + monthStart y' k + (d - 1) - unixEpochDay)"

text \<open>
  \<open>time.Date\<close>: the civil time is first read as if it were UTC, then shifted by the offset
  the location has there, looked up a second time when the first guess falls outside the
  validity of the zone it found.
\<close>

definition Date :: "int \<Rightarrow> int \<Rightarrow> int \<Rightarrow> int \<Rightarrow> int \<Rightarrow> int \<Rightarrow> int \<Rightarrow> Location \<Rightarrow> Time" where
  "Date y m d hh mi ss ns l =
     (let unix = daysFromCivil y m d * 86400 + hh * 3600 + mi * 60 + ss;
          (off, start, end) = lookup l unix;
          unix' = (if off \<noteq> 0
                   then (let utc = unix - off
                         in if utc < start \<or> end \<le> utc then unix - fst (lookup l utc)
                            else utc)
                   else unix)
      in \<lparr>unixNano = unix' * Second + ns, location = l\<rparr>)"

text \<open>The year of a day number (days since 0001-01-01): an estimate, corrected by one.\<close>

definition yearOfDay :: "int \<Rightarrow> int" where
  "yearOfDay n =
     (let y0 = (400 * n) div 146097 + 1
      in if daysBeforeYear (y0 + 1) \<le> n then y0 + 1
         else if n < daysBeforeYear y0 then y0 - 1 else y0)"

text \<open>The month (0-based) holding day \<open>yday\<close> (0-based) of year \<open>y\<close>.\<close>

definition monthOfYday :: "int \<Rightarrow> int \<Rightarrow> nat" where
  "monthOfYday y yday =
     (if monthStart y 11 \<le> yday then 11 else if monthStart y 10 \<le> yday then 10
      else if monthStart y 9 \<le> yday then 9 else if monthStart y 8 \<le> yday then 8
      else if monthStart y 7 \<le> yday then 7 else if monthStart y 6 \<le> yday then 6
      else if monthStart y 5 \<le> yday then 5 else if monthStart y 4 \<le> yday then 4
      else if monthStart y 3 \<le> yday then 3 else if monthStart y 2 \<le> yday then 2
      else if monthStart y 1 \<le> yday then 1 else 0)"

definition civilFromDays :: "int \<Rightarrow> int \<times> int \<times> int" where
  "civilFromDays n =
     (let N = n + unixEpochDay; y = yearOfDay N; yday = N - daysBeforeYear y;
          k = monthOfYday y yday
      in (y, int k + 1, yday - monthStart y k + 1))"

text \<open>\<open>t.Date()\<close>: year, month and day of \<open>t\<close> in its own location.\<close>

definition localDay :: "Time \<Rightarrow> int" where
  "localDay t = (unixSec t + fst (lookup (location t) (unixSec t))) div 86400"

definition DateOf :: "Time \<Rightarrow> int \<times> int \<times> int" where
  "DateOf t = civilFromDays (localDay t)"

definition Year :: "Time \<Rightarrow> int" where "Year t = fst (DateOf t)"
definition Month :: "Time \<Rightarrow> int" where "Month t = fst (snd (DateOf t))"
definition Day :: "Time \<Rightarrow> int" where "Day t = snd (snd (DateOf t))"


subsection \<open>Civil dates in the words of the specification\<close>

text \<open>
  A civil date is a year, a month from 1 to 12 and a day of that month; the next civil
  date is the day after it on the calendar; midnight UTC of a date is the start of that
  day in UTC.
\<close>

definition validCivil :: "int \<Rightarrow> int \<Rightarrow> int \<Rightarrow> bool" where
  "validCivil y m d = (1 \<le> m \<and> m \<le> 12 \<and> 1 \<le> d \<and> d \<le> daysIn m y)"

definition nextCivil :: "int \<times> int \<times> int \<Rightarrow> int \<times> int \<times> int" where
  "nextCivil c =
     (case c of (y, m, d) \<Rightarrow>
        if d < daysIn m y then (y, m, d + 1)
        else if m < 12 then (y, m + 1, 1)
        else (y + 1, 1, 1))"

definition midnightUTC :: "int \<times> int \<times> int \<Rightarrow> Time" where
  "midnightUTC c =
     (case c of (y, m, d) \<Rightarrow> \<lparr>unixNano = daysFromCivil y m d * (24 * Hour), location = UTC\<rparr>)"

section \<open>Parsing instants\<close>

text \<open>
  The two layouts the program hands to \<open>time.Parse\<close>, chunk by chunk as the standard
  library reads them: a four-digit year, two-digit month and day, an hour of one or two
  digits, two-digit minute and second, an optional fraction after the second, and either
  \<open>Z\<close> or a signed \<open>hh:mm\<close> offset. Nothing may follow the last chunk, and the day is
  checked against the length of its month at the end.
\<close>

definition isDigit :: "char \<Rightarrow> bool" where
  "isDigit c = (CHR ''0'' \<le> c \<and> c \<le> CHR ''9'')"

definition digitVal :: "char \<Rightarrow> int" where
  "digitVal c = int (of_char c) - 48"

definition digitsVal :: "string \<Rightarrow> int" where
  "digitsVal ds = foldl (\<lambda>acc c. acc * 10 + digitVal c) 0 ds"

fun skip :: "char \<Rightarrow> string \<Rightarrow> string option" where
  "skip c [] = None"
| "skip c (x # rest) = (if x = c then Some rest else None)"

fun getnum2 :: "string \<Rightarrow> (int \<times> string) option" where
  "getnum2 (a # b # rest) =
     (if isDigit a \<and> isDigit b then Some (digitVal a * 10 + digitVal b, rest) else None)"
| "getnum2 _ = None"

fun getnum :: "string \<Rightarrow> (int \<times> string) option" where
  "getnum [] = None"
| "getnum [a] = (if isDigit a then Some (digitVal a, []) else None)"
| "getnum (a # b # rest) =
     (if \<not> isDigit a then None
      else if \<not> isDigit b then Some (digitVal a, b # rest)
      else Some (digitVal a * 10 + digitVal b, rest))"

fun getyear :: "string \<Rightarrow> (int \<times> string) option" where
  "getyear (a # b # c # d # rest) =
     (if isDigit a \<and> isDigit b \<and> isDigit c \<and> isDigit d
      then Some (digitsVal [a, b, c, d], rest) else None)"
| "getyear _ = None"

text \<open>The chunks \<open>2006-01-02\<close>, shared by both layouts; what follows the day is returned.\<close>

definition parse_ymd :: "string \<Rightarrow> (int \<times> int \<times> int \<times> string) option" where
  "parse_ymd s = do {
     (y, s1) \<leftarrow> getyear s;
     s2 \<leftarrow> skip CHR ''-'' s1;
     (m, s3) \<leftarrow> getnum2 s2;
     if m \<le> 0 \<or> 12 < m then None
     else do {
       s4 \<leftarrow> skip CHR ''-'' s3;
       (d, s5) \<leftarrow> getnum2 s4;
       Some (y, m, d, s5)
     }
   }"

text \<open>\<open>time.Parse("2006-01-02", s)\<close>: the civil date, when \<open>s\<close> is one.\<close>

definition parse_civil :: "string \<Rightarrow> (int \<times> int \<times> int) option" where
  "parse_civil s = do {
     (y, m, d, rest) \<leftarrow> parse_ymd s;
     if rest \<noteq> [] then None
     else if d < 1 \<or> daysIn m y < d then None
     else Some (y, m, d)
   }"

definition parse_date :: "string \<Rightarrow> Time option" where
  "parse_date s = map_option (\<lambda>(y, m, d). Date y m d 0 0 0 0 UTC) (parse_civil s)"

text \<open>The fraction of a second: at most nine digits count, the rest are dropped.\<close>

definition parse_frac :: "string \<Rightarrow> int \<times> string" where
  "parse_frac s =
     (case s of
        c # d # rest \<Rightarrow>
          if (c = CHR ''.'' \<or> c = CHR '','') \<and> isDigit d
          then (let ds = take 9 (takeWhile isDigit (d # rest))
                in (digitsVal ds * 10 ^ (9 - length ds), dropWhile isDigit (d # rest)))
          else (0, s)
      | _ \<Rightarrow> (0, s))"

text \<open>The zone chunk \<open>Z07:00\<close>: \<open>None\<close> inside stands for \<open>Z\<close>, otherwise the offset in seconds.\<close>

definition parse_zone :: "string \<Rightarrow> (int option \<times> string) option" where
  "parse_zone s =
     (case s of
        [] \<Rightarrow> None
      | z # r \<Rightarrow>
          if z = CHR ''Z'' then Some (None, r)
          else (case r of
                  h1 # h2 # c # m1 # m2 # rest \<Rightarrow>
                    if c \<noteq> CHR '':'' then None
                    else do {
                      (hr, _) \<leftarrow> getnum2 [h1, h2];
                      (mm, _) \<leftarrow> getnum2 [m1, m2];
                      if 24 < hr \<or> 60 < mm then None
                      else if z = CHR ''+'' then Some (Some ((hr * 60 + mm) * 60), rest)
                      else if z = CHR ''-'' then Some (Some (- ((hr * 60 + mm) * 60)), rest)
                      else None
                    }
                | _ \<Rightarrow> None))"

text \<open>\<open>time.Parse(time.RFC3339, s)\<close>.\<close>

definition parse_rfc3339 :: "string \<Rightarrow> Time option" where
  "parse_rfc3339 s = do {
     (y, m, d, s1) \<leftarrow> parse_ymd s;
     s2 \<leftarrow> skip CHR ''T'' s1;
     (hh, s3) \<leftarrow> getnum s2;
     if 24 \<le> hh then None
     else do {
       s4 \<leftarrow> skip CHR '':'' s3;
       (mi, s5) \<leftarrow> getnum2 s4;
       if 60 \<le> mi then None
       else do {
         s6 \<leftarrow> skip CHR '':'' s5;
         (ss, s7) \<leftarrow> getnum2 s6;
         if 60 \<le> ss then None
         else do {
           (ns, s8) \<leftarrow> Some (parse_frac s7);
           (z, s9) \<leftarrow> parse_zone s8;
           if s9 \<noteq> [] then None
           else if d < 1 \<or> daysIn m y < d then None
           else (case z of
                   None \<Rightarrow> Some (Date y m d hh mi ss ns UTC)
                 | Some off \<Rightarrow>
                     Some ((Add (Date y m d hh mi ss ns UTC) (- off * Second))
                             \<lparr>location := FixedZone off\<rparr>))
         }
       }
     }
   }"

section \<open>The window parsers\<close>

text \<open>
  At the command line a token that is neither empty, nor a timestamp, nor a date logs an
  error and ends the process with \<open>os.Exit(1)\<close>; \<open>Exit\<close> carries the logged message and
  the exit code.
\<close>

datatype 'a cli = Exit string int | Return 'a

definition parseStart :: "string \<Rightarrow> Time \<Rightarrow> Time cli" where
  "parseStart val defaultVal =
     (if val = [] then Return defaultVal
      else case parse_rfc3339 val of
             Some t \<Rightarrow> Return t
           | None \<Rightarrow>
               (case parse_date val of
                  Some d \<Rightarrow> Return (Date (Year d) (Month d) (Day d) 0 0 0 0 UTC)
                | None \<Rightarrow> Exit ''invalid --from, expected RFC3339 or YYYY-MM-DD'' 1))"

definition parseEnd :: "string \<Rightarrow> Time \<Rightarrow> Time cli" where
  "parseEnd val defaultVal =
     (if val = [] then Return defaultVal
      else case parse_rfc3339 val of
             Some t \<Rightarrow> Return t
           | None \<Rightarrow>
               (case parse_date val of
                  Some d \<Rightarrow>
                    (let next = Add d (24 * Hour)
                     in Return (Date (Year next) (Month next) (Day next) 0 0 0 0 UTC))
                | None \<Rightarrow> Exit ''invalid --to, expected RFC3339 or YYYY-MM-DD'' 1))"

definition parseStartHTTP :: "string \<Rightarrow> Time \<Rightarrow> Time" where
  "parseStartHTTP val defaultVal =
     (if val = [] then defaultVal
      else case parse_rfc3339 val of
             Some t \<Rightarrow> t
           | None \<Rightarrow>
               (case parse_date val of
                  Some d \<Rightarrow> Date (Year d) (Month d) (Day d) 0 0 0 0 UTC
                | None \<Rightarrow> defaultVal))"

definition parseEndHTTP :: "string \<Rightarrow> Time \<Rightarrow> Time" where
  "parseEndHTTP val defaultVal =
     (if val = [] then defaultVal
      else case parse_rfc3339 val of
             Some t \<Rightarrow> t
           | None \<Rightarrow>
               (case parse_date val of
                  Some d \<Rightarrow>
                    (let next = Add d (24 * Hour)
                     in Date (Year next) (Month next) (Day next) 0 0 0 0 UTC)
                | None \<Rightarrow> defaultVal))"

text \<open>
  The window of \<open>main\<close> (the end first, the start defaulting to 24 hours before it) and
  the window of the \<open>/sync\<close> handler, each from the two tokens and the current UTC time.
\<close>

definition main_window :: "string \<Rightarrow> string \<Rightarrow> Time \<Rightarrow> (Time \<times> Time) cli" where
  "main_window from to now =
     (case parseEnd to now of
        Exit msg c \<Rightarrow> Exit msg c
      | Return toTime \<Rightarrow>
          (case parseStart from (Add toTime (- 24 * Hour)) of
             Exit msg c \<Rightarrow> Exit msg c
           | Return fromTime \<Rightarrow> Return (fromTime, toTime)))"

definition http_window :: "string \<Rightarrow> string \<Rightarrow> Time \<Rightarrow> Time \<times> Time" where
  "http_window fromStr toStr now =
     (let toTime = parseEndHTTP toStr now;
          fromTime = parseStartHTTP fromStr (Add toTime (- 24 * Hour))
      in (fromTime, toTime))"

section \<open>The daily scheduler's next midnight\<close>

definition nextMidnight :: "Time \<Rightarrow> Time" where
  "nextMidnight t =
     (let (y, m, d) = DateOf t;
          midnight = Date y m d 0 0 0 0 (location t)
      in if \<not> After t midnight
         then (if Equal t midnight then Add midnight (24 * Hour) else midnight)
         else Add midnight (24 * Hour))"


section \<open>Domain\<close>

text \<open>
  A Go \<open>error\<close> is kept as its message, the only thing the program reads from one. A
  pointer field that may be \<open>nil\<close> is an option, and so is the tag slice, whose \<open>nil\<close>
  and empty values serialise differently.
\<close>

type_synonym error = string
type_synonym int64 = "64 word"

record TimeEntry =
  ID :: int64
  Description :: string
  ProjectID :: "int64 option"
  WorkspaceID :: "int64 option"
  Tags :: "string list option"
  Start :: Time
  Stop :: "Time option"
  DurationSec :: int64

record Project =
  PID :: int64
  PWorkspaceID :: int64
  Name :: string
  Active :: bool
  Private :: bool
  Color :: string
  ClientID :: "int64 option"
  At :: Time

section \<open>Ports\<close>

text \<open>
  The source answers with a list or an error. A sink acts on a store of type \<open>'s\<close> and
  answers with an error or \<open>None\<close>.
\<close>

record TogglClient =
  ListTimeEntries :: "Time \<Rightarrow> Time \<Rightarrow> error + TimeEntry list"
  ListProjects :: "error + Project list"

record 's Sink =
  SyncEntries :: "TimeEntry list \<Rightarrow> 's \<Rightarrow> error option \<times> 's"
  SyncProjects :: "Project list \<Rightarrow> 's \<Rightarrow> error option \<times> 's"

section \<open>The sync use case\<close>

text \<open>
  The calls a run makes on its two collaborators are recorded, in order, beside the store,
  so that a theorem can say which calls a run made.
\<close>

datatype call =
    CallListProjects
  | CallSyncProjects "Project list"
  | CallListTimeEntries Time Time
  | CallSyncEntries "TimeEntry list"

record 's world =
  store :: 's
  calls :: "call list"

record 's SyncUseCase =
  Toggl :: "TogglClient option"
  Sink :: "'s Sink option"

definition called :: "call \<Rightarrow> 's world \<Rightarrow> 's world" where
  "called c w = w\<lparr>calls := calls w @ [c]\<rparr>"

definition Run :: "'s SyncUseCase \<Rightarrow> Time \<Rightarrow> Time \<Rightarrow> 's world \<Rightarrow> error option \<times> 's world" where
  "Run uc from to w =
     (case (Toggl uc, Sink uc) of
        (Some toggl, Some sink) \<Rightarrow>
          (case ListProjects toggl of
             Inl err \<Rightarrow> (Some err, called CallListProjects w)
           | Inr projects \<Rightarrow>
               (let w1 = called CallListProjects w;
                    (perr, w2) =
                      (if 0 < length projects
                       then (let (e, st) = SyncProjects sink projects (store w1)
                             in (e, (called (CallSyncProjects projects) w1)\<lparr>store := st\<rparr>))
                       else (None, w1))
                in case perr of
                     Some err \<Rightarrow> (Some err, w2)
                   | None \<Rightarrow>
                       (let w3 = called (CallListTimeEntries from to) w2
                        in case ListTimeEntries toggl from to of
                             Inl err \<Rightarrow> (Some err, w3)
                           | Inr entries \<Rightarrow>
                               if length entries = 0 then (None, w3)
                               else (let (e, st) = SyncEntries sink entries (store w3)
                                     in (e, (called (CallSyncEntries entries) w3)\<lparr>store := st\<rparr>)))))
      | _ \<Rightarrow> (Some ''usecase not initialized: missing dependencies'', w))"

definition persistence_calls :: "call list \<Rightarrow> call list" where
  "persistence_calls cs =
     filter (\<lambda>c. case c of CallSyncProjects _ \<Rightarrow> True | CallSyncEntries _ \<Rightarrow> True | _ \<Rightarrow> False) cs"

definition entry_calls :: "call list \<Rightarrow> call list" where
  "entry_calls cs = filter (\<lambda>c. case c of CallSyncEntries _ \<Rightarrow> True | _ \<Rightarrow> False) cs"

definition project_calls :: "call list \<Rightarrow> call list" where
  "project_calls cs = filter (\<lambda>c. case c of CallSyncProjects _ \<Rightarrow> True | _ \<Rightarrow> False) cs"

section \<open>The application and its single-flight guard\<close>

text \<open>
  \<open>App\<close> with the guard: \<open>running\<close> is the \<open>atomic.Int32\<close>, 0 when idle and 1 while a sync
  is in progress. A compare-and-swap is one atomic step, so it is a function on the state.
\<close>

record 's app =
  running :: "32 word"
  world :: "'s world"

definition tryBeginRun :: "'s app \<Rightarrow> bool \<times> 's app" where
  "tryBeginRun a = (if running a = 0 then (True, a\<lparr>running := 1\<rparr>) else (False, a))"

definition endRun :: "'s app \<Rightarrow> 's app" where
  "endRun a = a\<lparr>running := 0\<rparr>"

definition already_running :: error where
  "already_running = ''sync already running''"

definition RunOnce :: "'s SyncUseCase \<Rightarrow> Time \<Rightarrow> Time \<Rightarrow> 's app \<Rightarrow> error option \<times> 's app" where
  "RunOnce uc from to a =
     (case tryBeginRun a of
        (False, a1) \<Rightarrow> (Some already_running, a1)
      | (True, a1) \<Rightarrow>
          (let (err, w) = Run uc from to (world a1)
           in (err, endRun (a1\<lparr>world := w\<rparr>))))"

section \<open>The HTTP trigger\<close>

record request =
  req_method :: string
  q_from :: string
  q_to :: string

record response =
  code :: nat
  status :: string
  err_text :: "error option"
  win :: "(Time \<times> Time) option"

definition sync_handler ::
  "'s SyncUseCase \<Rightarrow> request \<Rightarrow> Time \<Rightarrow> 's app \<Rightarrow> response \<times> 's app" where
  "sync_handler uc r now a =
     (if req_method r \<noteq> ''GET'' \<and> req_method r \<noteq> ''POST''
      then (\<lparr>code = 405, status = ''method not allowed'', err_text = None, win = None\<rparr>, a)
      else (let toTime = parseEndHTTP (q_to r) now;
                fromTime = parseStartHTTP (q_from r) (Add toTime (- 24 * Hour));
                (err, a') = RunOnce uc fromTime toTime a
            in case err of
                 Some e \<Rightarrow>
                   (\<lparr>code = (if e = ''sync already running'' then 409 else 500),
                     status = ''error'', err_text = Some e, win = Some (fromTime, toTime)\<rparr>, a')
               | None \<Rightarrow>
                   (\<lparr>code = 200, status = ''ok'', err_text = None,
                     win = Some (fromTime, toTime)\<rparr>, a')))"


section \<open>The MySQL sink\<close>

text \<open>
  Both tables have \<open>id BIGINT PRIMARY KEY\<close>, so a table is a map from the id to the other
  columns. The statement of each upsert is \<open>INSERT ... ON DUPLICATE KEY UPDATE\<close> over every
  other column: it stores the row under its id, replacing what was there. \<open>json.Marshal\<close>
  of the tags is a parameter, \<open>marshal\<close>.
\<close>

record entry_row =
  e_description :: string
  e_project_id :: "int64 option"
  e_workspace_id :: "int64 option"
  e_tags :: string
  e_start :: Time
  e_stop :: "Time option"
  e_duration_sec :: int64

record project_row =
  p_workspace_id :: int64
  p_name :: string
  p_active :: bool
  p_is_private :: bool
  p_color :: string
  p_client_id :: "int64 option"
  p_at :: Time

record db =
  toggl_time_entries :: "int64 \<rightharpoonup> entry_row"
  toggl_projects :: "int64 \<rightharpoonup> project_row"

text \<open>What the database may refuse: opening the transaction, preparing the statement,
  executing it for the record at some index, or the commit.\<close>

datatype fault =
    BeginTxFails error
  | PrepareFails error
  | ExecFails nat error
  | CommitFails error

definition entry_row_of :: "(string list option \<Rightarrow> string) \<Rightarrow> TimeEntry \<Rightarrow> entry_row" where
  "entry_row_of marshal e =
     \<lparr>e_description = Description e,
      e_project_id = ProjectID e,
      e_workspace_id = WorkspaceID e,
      e_tags = marshal (Tags e),
      e_start = toUTC (Start e),
      e_stop = map_option toUTC (Stop e),
      e_duration_sec = DurationSec e\<rparr>"

definition project_row_of :: "Project \<Rightarrow> project_row" where
  "project_row_of p =
     \<lparr>p_workspace_id = PWorkspaceID p,
      p_name = Name p,
      p_active = Active p,
      p_is_private = Private p,
      p_color = Color p,
      p_client_id = ClientID p,
      p_at = toUTC (At p)\<rparr>"

definition exec_fault :: "fault option \<Rightarrow> nat \<Rightarrow> error option" where
  "exec_fault f i =
     (case f of Some (ExecFails k err) \<Rightarrow> (if k = i then Some err else None) | _ \<Rightarrow> None)"

text \<open>The loop over the batch, inside the transaction: the first refusal ends it.\<close>

fun exec_rows :: "fault option \<Rightarrow> nat \<Rightarrow> ('k \<times> 'r) list \<Rightarrow> ('k \<rightharpoonup> 'r) \<Rightarrow> error + ('k \<rightharpoonup> 'r)" where
  "exec_rows f i [] t = Inr t"
| "exec_rows f i ((k, r) # rest) t =
     (case exec_fault f i of
        Some err \<Rightarrow> Inl err
      | None \<Rightarrow> exec_rows f (Suc i) rest (t(k \<mapsto> r)))"

text \<open>One batch as one transaction: on a refusal the table is as it was.\<close>

definition upsert_batch :: "fault option \<Rightarrow> ('k \<times> 'r) list \<Rightarrow> ('k \<rightharpoonup> 'r) \<Rightarrow> error option \<times> ('k \<rightharpoonup> 'r)" where
  "upsert_batch f rows t =
     (case f of
        Some (BeginTxFails err) \<Rightarrow> (Some err, t)
      | Some (PrepareFails err) \<Rightarrow> (Some err, t)
      | _ \<Rightarrow>
          (case exec_rows f 0 rows t of
             Inl err \<Rightarrow> (Some err, t)
           | Inr t' \<Rightarrow>
               (case f of
                  Some (CommitFails err) \<Rightarrow> (Some err, t)
                | _ \<Rightarrow> (None, t'))))"

definition Client_SyncEntries ::
  "(string list option \<Rightarrow> string) \<Rightarrow> fault option \<Rightarrow> TimeEntry list \<Rightarrow> db \<Rightarrow> error option \<times> db" where
  "Client_SyncEntries marshal f entries d =
     (if length entries = 0 then (None, d)
      else (let (err, t) = upsert_batch f (map (\<lambda>e. (ID e, entry_row_of marshal e)) entries)
                             (toggl_time_entries d)
            in (err, d\<lparr>toggl_time_entries := t\<rparr>)))"

definition Client_SyncProjects :: "fault option \<Rightarrow> Project list \<Rightarrow> db \<Rightarrow> error option \<times> db" where
  "Client_SyncProjects f projects d =
     (if length projects = 0 then (None, d)
      else (let (err, t) = upsert_batch f (map (\<lambda>p. (PID p, project_row_of p)) projects)
                             (toggl_projects d)
            in (err, d\<lparr>toggl_projects := t\<rparr>)))"


section \<open>The schema migrator\<close>

text \<open>
  The ledger \<open>schema_migrations\<close> is the list of recorded versions, in the order they were
  inserted (\<open>version\<close> is its primary key, so inserting a recorded version fails);
  \<open>ran\<close> lists the files whose script was executed, in order. A migration file is its base
  name and its text. Whether the database accepts a script is the parameter \<open>exec\<close>.
\<close>

record mdb =
  ledger :: "int list"
  ran :: "string list"













section \<open>The wiring and some concrete data\<close>

text \<open>\<open>App.New\<close> hands the MySQL client to the use case as its sink.\<close>

definition mysql_sink :: "(string list option \<Rightarrow> string) \<Rightarrow> fault option \<Rightarrow> db Sink" where
  "mysql_sink marshal f =
     \<lparr>SyncEntries = Client_SyncEntries marshal f, SyncProjects = Client_SyncProjects f\<rparr>"

text \<open>\<open>json.Marshal\<close> on tags that need no escaping.\<close>

fun join_tags :: "string list \<Rightarrow> string" where
  "join_tags [] = []"
| "join_tags [x] = CHR 0x22 # x @ [CHR 0x22]"
| "join_tags (x # y # rest) = CHR 0x22 # x @ [CHR 0x22] @ '','' @ join_tags (y # rest)"

definition marshal_plain :: "string list option \<Rightarrow> string" where
  "marshal_plain ts = (case ts of None \<Rightarrow> ''null'' | Some xs \<Rightarrow> ''['' @ join_tags xs @ '']'')"

definition at_unix :: "int \<Rightarrow> Time" where
  "at_unix sec = \<lparr>unixNano = sec * Second, location = UTC\<rparr>"

definition dev_work :: TimeEntry where
  "dev_work =
     \<lparr>ID = 1, Description = ''Dev work'', ProjectID = Some 123, WorkspaceID = Some 456,
      Tags = Some [''dev'', ''feature''], Start = at_unix 1754038800,
      Stop = Some (at_unix 1754044200), DurationSec = 5400\<rparr>"


definition internal_project :: Project where
  "internal_project =
     \<lparr>PID = 123, PWorkspaceID = 456, Name = ''Internal'', Active = True, Private = False,
      Color = ''#0b83d9'', ClientID = None, At = at_unix 1754000000\<rparr>"

definition empty_db :: db where
  "empty_db = \<lparr>toggl_time_entries = Map.empty, toggl_projects = Map.empty\<rparr>"



definition fresh_world :: "db world" where
  "fresh_world = \<lparr>store = empty_db, calls = []\<rparr>"

definition idle_app :: "db app" where
  "idle_app = \<lparr>running = 0, world = fresh_world\<rparr>"

definition busy_app :: "db app" where
  "busy_app = \<lparr>running = 1, world = fresh_world\<rparr>"

definition source_of :: "error + Project list \<Rightarrow> error + TimeEntry list \<Rightarrow> TogglClient" where
  "source_of ps es = \<lparr>ListTimeEntries = (\<lambda>from to. es), ListProjects = ps\<rparr>"

definition use_case :: "TogglClient \<Rightarrow> db SyncUseCase" where
  "use_case src = \<lparr>Toggl = Some src, Sink = Some (mysql_sink marshal_plain None)\<rparr>"

text \<open>
  Central European time around 2025: UTC+1, UTC+2 from 2025-03-30T01:00:00Z, and UTC+1
  again from 2025-10-26T01:00:00Z (the transitions the zone \<open>Europe/Berlin\<close> has that year).
\<close>

definition Berlin_2025 :: Location where
  "Berlin_2025 = \<lparr>zone0 = 3600, tx = [(1743296400, 7200), (1761440400, 3600)]\<rparr>"


section \<open>The calendar functions agree\<close>

text \<open>
  The day count of a date and the date of a day count are inverse to each other on the
  civil dates, and the next civil date is one day later.
\<close>

lemma div_succ:
  fixes z c :: int
  assumes "0 < c"
  shows "(z + 1) div c = z div c + (if (z + 1) mod c = 0 then 1 else 0)"
proof (cases "z mod c = c - 1")
  case True
  have "z + 1 = c * (z div c) + z mod c + 1"
    using mult_div_mod_eq [of c z] by simp
  then have e: "z + 1 = c * (z div c + 1) + 0"
    using True by (simp add: algebra_simps)
  have z: "(0::int) \<le> 0" "0 < c" using assms by simp_all
  have "(z + 1) div c = z div c + 1" using int_div_pos_eq [OF e z] .
  moreover have "(z + 1) mod c = 0" using int_mod_pos_eq [OF e z] .
  ultimately show ?thesis by simp
next
  case False
  have r: "0 \<le> z mod c" "z mod c < c" using assms by simp_all
  have e: "z + 1 = c * (z div c) + (z mod c + 1)"
    using mult_div_mod_eq [of c z] by simp
  have b: "0 \<le> z mod c + 1" "z mod c + 1 < c" using r False by linarith+
  have "(z + 1) div c = z div c" using int_div_pos_eq [OF e b] .
  moreover have "(z + 1) mod c = z mod c + 1" using int_mod_pos_eq [OF e b] .
  ultimately show ?thesis using r by simp
qed

lemma mod_400_100: "(y::int) mod 400 = 0 \<Longrightarrow> y mod 100 = 0"
  using mod_mod_cancel [of 100 400 y] by simp

lemma mod_100_4: "(y::int) mod 100 = 0 \<Longrightarrow> y mod 4 = 0"
  using mod_mod_cancel [of 4 100 y] by simp

lemma scale_div_mod:
  fixes z a r c m :: int
  shows "c * a + r = z \<Longrightarrow> (m * c) * a = m * z - m * r"
  by (auto simp: algebra_simps)

lemma daysBeforeYear_step:
  "daysBeforeYear (y + 1) = daysBeforeYear y + (if isLeap y then 366 else 365)"
proof -
  define A B C where "A = (y - 1) div 4" and "B = (y - 1) div 100" and "C = (y - 1) div 400"
  define p4 p100 p400 where "p4 \<longleftrightarrow> y mod 4 = 0" and "p100 \<longleftrightarrow> y mod 100 = 0"
    and "p400 \<longleftrightarrow> y mod 400 = 0"
  have d4: "y div 4 = A + (if p4 then 1 else 0)"
    using div_succ [of 4 "y - 1"] by (simp add: A_def p4_def)
  have d100: "y div 100 = B + (if p100 then 1 else 0)"
    using div_succ [of 100 "y - 1"] by (simp add: B_def p100_def)
  have d400: "y div 400 = C + (if p400 then 1 else 0)"
    using div_succ [of 400 "y - 1"] by (simp add: C_def p400_def)
  have imp: "p400 \<longrightarrow> p100" "p100 \<longrightarrow> p4"
    using mod_400_100 [of y] mod_100_4 [of y] by (simp_all add: p4_def p100_def p400_def)
  have leap: "isLeap y \<longleftrightarrow> p4 \<and> (\<not> p100 \<or> p400)"
    by (simp add: isLeap_def p4_def p100_def p400_def)
  have l: "daysBeforeYear (y + 1) = 365 * y + y div 4 - y div 100 + y div 400"
    by (simp add: daysBeforeYear_def)
  have r: "daysBeforeYear y = 365 * (y - 1) + A - B + C"
    by (simp add: daysBeforeYear_def A_def B_def C_def)
  show ?thesis
    unfolding l r d4 d100 d400 leap using imp
    by (cases p4; cases p100; cases p400; simp)
qed

lemma daysBeforeYear_spread:
  "\<exists>e. 400 * daysBeforeYear y = 146097 * (y - 1) + e \<and> - 699 \<le> e \<and> e \<le> 396"
proof -
  define z where "z = y - 1"
  define A B C where "A = z div 4" and "B = z div 100" and "C = z div 400"
  define ra rb rc where "ra = z mod 4" and "rb = z mod 100" and "rc = z mod 400"
  have a: "400 * A = 100 * z - 100 * ra"
    using scale_div_mod [OF mult_div_mod_eq [of 4 z], of 100] by (simp add: A_def ra_def)
  have b: "400 * B = 4 * z - 4 * rb"
    using scale_div_mod [OF mult_div_mod_eq [of 100 z], of 4] by (simp add: B_def rb_def)
  have c: "400 * C = z - rc"
    using scale_div_mod [OF mult_div_mod_eq [of 400 z], of 1] by (simp add: C_def rc_def)
  have "daysBeforeYear y = 365 * z + A - B + C"
    by (simp add: daysBeforeYear_def z_def A_def B_def C_def)
  then have "400 * daysBeforeYear y = 146000 * z + 400 * A - 400 * B + 400 * C"
    by simp
  then have eq: "400 * daysBeforeYear y = 146097 * z + (- 100 * ra + 4 * rb - rc)"
    unfolding a b c by simp
  have bs: "0 \<le> ra" "ra < 4" "0 \<le> rb" "rb < 100" "0 \<le> rc" "rc < 400"
    by (simp_all add: ra_def rb_def rc_def)
  have "- 699 \<le> - 100 * ra + 4 * rb - rc" "- 100 * ra + 4 * rb - rc \<le> 396"
    using bs by linarith+
  then show ?thesis using eq unfolding z_def by blast
qed

lemma yearOfDay_in_year:
  assumes "0 \<le> k" and "k < (if isLeap y then 366 else 365)"
  shows "yearOfDay (daysBeforeYear y + k) = y"
proof -
  let ?n = "daysBeforeYear y + k"
  define q where "q = (400 * ?n) div 146097"
  define r where "r = (400 * ?n) mod 146097"
  obtain e where e: "400 * daysBeforeYear y = 146097 * (y - 1) + e" "- 699 \<le> e" "e \<le> 396"
    using daysBeforeYear_spread by blast
  have qr: "146097 * q + r = 400 * ?n" "0 \<le> r" "r < 146097"
    by (simp_all add: q_def r_def)
  have k: "k \<le> 365" using assms by (simp split: if_splits)
  have eq: "146097 * q + r = 146097 * (y - 1) + e + 400 * k"
    using qr(1) e(1) by simp
  have lo: "y - 2 \<le> q"
  proof (rule ccontr)
    assume "\<not> y - 2 \<le> q"
    then have "q \<le> y - 3" by simp
    then have "146097 * q \<le> 146097 * (y - 3)" by simp
    then show False using eq qr e assms(1) by simp
  qed
  have hi: "q \<le> y"
  proof (rule ccontr)
    assume "\<not> q \<le> y"
    then have "y + 1 \<le> q" by simp
    then have "146097 * (y + 1) \<le> 146097 * q" by simp
    then show False using eq qr e k by simp
  qed
  have s0: "daysBeforeYear (y + 1) = daysBeforeYear y + (if isLeap y then 366 else 365)"
    by (rule daysBeforeYear_step)
  have s1: "daysBeforeYear (y + 2) = daysBeforeYear (y + 1) + (if isLeap (y + 1) then 366 else 365)"
    using daysBeforeYear_step [of "y + 1"] by (simp only: add.assoc one_add_one)
  have y0: "yearOfDay ?n = (if daysBeforeYear (q + 1 + 1) \<le> ?n then q + 1 + 1
        else if ?n < daysBeforeYear (q + 1) then q + 1 - 1 else q + 1)"
    by (simp only: yearOfDay_def Let_def q_def)
  have n0: "daysBeforeYear y \<le> ?n" using assms(1) by simp
  have n1: "?n < daysBeforeYear (y + 1)" using assms(2) s0 by simp
  have n2: "?n < daysBeforeYear (y + 2)" using n1 s1 by (simp split: if_splits)
  consider "q = y - 2" | "q = y - 1" | "q = y" using lo hi by linarith
  then show ?thesis
  proof cases
    case 1
    then have a: "q + 1 + 1 = y" by simp
    have "daysBeforeYear (q + 1 + 1) \<le> ?n" unfolding a by (rule n0)
    then have "yearOfDay ?n = q + 1 + 1" unfolding y0 by (simp only: if_True)
    then show ?thesis unfolding a .
  next
    case 2
    then have a: "q + 1 + 1 = y + 1" and b: "q + 1 = y" by simp_all
    have "\<not> daysBeforeYear (q + 1 + 1) \<le> ?n" unfolding a using n1 by (simp only: not_le)
    moreover have "\<not> ?n < daysBeforeYear (q + 1)" unfolding b using n0 by (simp only: not_less)
    ultimately have "yearOfDay ?n = q + 1" unfolding y0 by (simp only: if_False)
    then show ?thesis unfolding b .
  next
    case 3
    then have a: "q + 1 + 1 = y + 2" and b: "q + 1 = y + 1" and c: "q + 1 - 1 = y" by simp_all
    have "\<not> daysBeforeYear (q + 1 + 1) \<le> ?n" unfolding a using n2 by (simp only: not_le)
    moreover have "?n < daysBeforeYear (q + 1)" unfolding b by (rule n1)
    ultimately have "yearOfDay ?n = q + 1 - 1" unfolding y0 by (simp only: if_False if_True)
    then show ?thesis unfolding c .
  qed
qed

lemma monthOfYday_le: "monthOfYday y j \<le> 11"
  by (simp add: monthOfYday_def)

lemma upt_0_12: "[0..<12] = [0, 1, 2, 3, 4, 5, 6, 7, 8, 9, 10, 11]"
  by (simp add: upt_rec)

lemma lt_12_cases:
  assumes "(k::nat) < 12"
  shows "k = 0 \<or> k = 1 \<or> k = 2 \<or> k = 3 \<or> k = 4 \<or> k = 5 \<or> k = 6 \<or> k = 7
     \<or> k = 8 \<or> k = 9 \<or> k = 10 \<or> k = 11"
proof -
  have "k \<in> set [0..<12]" using assms by simp
  then show ?thesis unfolding upt_0_12 by simp
qed

lemma monthStart_values:
  "monthStart y 0 = 0" "monthStart y 1 = 31"
  "monthStart y 2 = (if isLeap y then 60 else 59)"
  "monthStart y 3 = (if isLeap y then 91 else 90)"
  "monthStart y 4 = (if isLeap y then 121 else 120)"
  "monthStart y 5 = (if isLeap y then 152 else 151)"
  "monthStart y 6 = (if isLeap y then 182 else 181)"
  "monthStart y 7 = (if isLeap y then 213 else 212)"
  "monthStart y 8 = (if isLeap y then 244 else 243)"
  "monthStart y 9 = (if isLeap y then 274 else 273)"
  "monthStart y 10 = (if isLeap y then 305 else 304)"
  "monthStart y 11 = (if isLeap y then 335 else 334)"
  "monthStart y 12 = (if isLeap y then 366 else 365)"
  "monthStart y (Suc 0) = 31"
  "monthStart y (Suc (Suc 0)) = (if isLeap y then 60 else 59)"
  by (simp_all add: monthStart_def daysBefore_def)

lemma monthOfYday_in_month:
  assumes "k < 12" and "0 \<le> j" and "monthStart y k + j < monthStart y (k + 1)"
  shows "monthOfYday y (monthStart y k + j) = k"
proof (cases "isLeap y")
  case True
  show ?thesis
    using lt_12_cases [OF assms(1)] assms(2,3) True
    by (elim disjE) (simp_all add: monthOfYday_def monthStart_values)
next
  case False
  show ?thesis
    using lt_12_cases [OF assms(1)] assms(2,3) False
    by (elim disjE) (simp_all add: monthOfYday_def monthStart_values)
qed

lemma monthStart_bounds:
  assumes "k < 12"
  shows "0 \<le> monthStart y k" and "monthStart y (k + 1) \<le> (if isLeap y then 366 else 365)"
    and "monthStart y k < monthStart y (k + 1)"
  using lt_12_cases [OF assms]
  by (auto simp: monthStart_values)

lemma daysIn_monthStart:
  assumes "1 \<le> m" and "m \<le> 12"
  shows "daysIn m y = monthStart y (nat (m - 1) + 1) - monthStart y (nat (m - 1))"
proof -
  define k where "k = nat (m - 1)"
  have m: "m = int k + 1" and k: "k < 12" using assms by (simp_all add: k_def)
  show ?thesis
    unfolding m using lt_12_cases [OF k]
    by (elim disjE) (simp_all add: daysIn_def monthStart_values daysBefore_def)
qed

lemma daysFromCivil_valid:
  assumes "validCivil y m d"
  shows "daysFromCivil y m d =
           daysBeforeYear y + monthStart y (nat (m - 1)) + (d - 1) - unixEpochDay"
proof -
  have "0 \<le> m - 1" "m - 1 < 12" using assms by (simp_all add: validCivil_def)
  then have "(m - 1) div 12 = 0" "(m - 1) mod 12 = m - 1" by simp_all
  then show ?thesis by (simp add: daysFromCivil_def Let_def)
qed

lemma civil_roundtrip:
  assumes "validCivil y m d"
  shows "civilFromDays (daysFromCivil y m d) = (y, m, d)"
proof -
  define k where "k = nat (m - 1)"
  define j where "j = d - 1"
  have mb: "1 \<le> m" "m \<le> 12" "1 \<le> d" using assms by (simp_all add: validCivil_def)
  have k: "k < 12" and m: "m = int k + 1" and j: "0 \<le> j"
    using mb by (simp_all add: k_def j_def)
  have "d \<le> monthStart y (k + 1) - monthStart y k"
    using assms daysIn_monthStart [of m y] by (simp add: validCivil_def k_def)
  then have jm: "monthStart y k + j < monthStart y (k + 1)" by (simp add: j_def)
  have lo: "0 \<le> monthStart y k + j" using monthStart_bounds(1) [OF k, of y] j by simp
  have hi: "monthStart y k + j < (if isLeap y then 366 else 365)"
    using monthStart_bounds(2) [OF k, of y] jm by (simp split: if_splits)
  have N: "daysFromCivil y m d + unixEpochDay = daysBeforeYear y + (monthStart y k + j)"
    using daysFromCivil_valid [OF assms] by (simp add: k_def j_def)
  have yr: "yearOfDay (daysBeforeYear y + (monthStart y k + j)) = y"
    by (rule yearOfDay_in_year [OF lo hi])
  have mo: "monthOfYday y (monthStart y k + j) = k"
    by (rule monthOfYday_in_month [OF k j jm])
  show ?thesis
    unfolding civilFromDays_def Let_def N yr using mo by (simp add: m j_def)
qed

lemma daysFromCivil_civilFromDays:
  "(case civilFromDays n of (y, m, d) \<Rightarrow> daysFromCivil y m d) = n"
proof -
  define y where "y = yearOfDay (n + unixEpochDay)"
  define k where "k = monthOfYday y (n + unixEpochDay - daysBeforeYear y)"
  have c: "civilFromDays n = (y, int k + 1, n + unixEpochDay - daysBeforeYear y - monthStart y k + 1)"
    by (simp add: civilFromDays_def Let_def y_def k_def)
  have "k \<le> 11" unfolding k_def by (rule monthOfYday_le)
  then have "int k div 12 = 0" "int k mod 12 = int k" by simp_all
  then show ?thesis unfolding c by (simp add: daysFromCivil_def Let_def)
qed

lemma nextCivil_days:
  assumes "validCivil y m d"
  shows "case nextCivil (y, m, d) of (y', m', d') \<Rightarrow>
           validCivil y' m' d' \<and> daysFromCivil y' m' d' = daysFromCivil y m d + 1"
proof -
  define k where "k = nat (m - 1)"
  have mb: "1 \<le> m" "m \<le> 12" using assms by (simp_all add: validCivil_def)
  have k: "k < 12" and m: "m = int k + 1"
    using mb by (simp_all add: k_def)
  have v: "1 \<le> d" "d \<le> daysIn m y" using assms by (simp_all add: validCivil_def)
  have di: "daysIn m y = monthStart y (k + 1) - monthStart y k"
    using assms daysIn_monthStart [of m y] by (simp add: validCivil_def k_def)
  consider (day) "d < daysIn m y" | (month) "d = daysIn m y" "m < 12" | (year) "d = daysIn m y" "m = 12"
    using v mb by fastforce
  then show ?thesis
  proof cases
    case day
    then have n: "nextCivil (y, m, d) = (y, m, d + 1)" by (simp add: nextCivil_def)
    have v': "validCivil y m (d + 1)" using assms day by (simp add: validCivil_def)
    show ?thesis unfolding n using v' daysFromCivil_valid [OF v'] daysFromCivil_valid [OF assms] by simp
  next
    case month
    then have n: "nextCivil (y, m, d) = (y, m + 1, 1)" by (simp add: nextCivil_def)
    have k1: "k + 1 < 12" using month(2) m by simp
    have e: "nat (m + 1 - 1) = k + 1" using m by simp
    have p: "1 \<le> m + 1" "m + 1 \<le> 12" using mb month(2) by simp_all
    have "1 \<le> daysIn (m + 1) y"
      using daysIn_monthStart [OF p, unfolded e, of y] monthStart_bounds(3) [OF k1, of y]
      by linarith
    then have v': "validCivil y (m + 1) 1" using assms month(2) by (simp add: validCivil_def)
    show ?thesis
      unfolding n using v' daysFromCivil_valid [OF v', unfolded e] daysFromCivil_valid [OF assms]
        month(1) di
      by (simp add: k_def)
  next
    case year
    then have n: "nextCivil (y, m, d) = (y + 1, 1, 1)" by (simp add: nextCivil_def)
    have v': "validCivil (y + 1) 1 1" by (simp add: validCivil_def daysIn_def daysBefore_def)
    have "k = 11" using year(2) by (simp add: k_def)
    then have "d = monthStart y 12 - monthStart y 11" using year(1) di by simp
    then show ?thesis
      unfolding n using v' daysFromCivil_valid [OF v'] daysFromCivil_valid [OF assms] year(2)
        daysBeforeYear_step [of y]
      by (simp add: monthStart_values)
  qed
qed

section \<open>Properties of the window parsers\<close>

lemma lookup_UTC: "lookup UTC s = (0, alpha, omega)"
  by (simp add: lookup_def UTC_def)

lemma day_nanos: "24 * Hour = 86400 * Second"
  by (simp add: Hour_def)

lemma Date_midnight_UTC: "Date y m d 0 0 0 0 UTC = midnightUTC (y, m, d)"
  by (simp add: Date_def lookup_UTC Let_def midnightUTC_def day_nanos)

lemma unixSec_days: "unixSec \<lparr>unixNano = n * (24 * Hour) + k * Second, location = l\<rparr> = n * 86400 + k"
proof -
  have "n * (24 * (3600 * Second)) + k * Second = (n * 86400 + k) * Second"
    by (simp add: algebra_simps)
  then have e: "n * (24 * Hour) + k * Second = (n * 86400 + k) * Second"
    by (simp only: Hour_def)
  have nz: "Second \<noteq> 0" by (simp add: Second_def)
  show ?thesis
    unfolding unixSec_def by (simp only: Time.select_convs e nonzero_mult_div_cancel_right [OF nz])
qed

lemma localDay_midnightUTC: "localDay (midnightUTC (y, m, d)) = daysFromCivil y m d"
  using unixSec_days [of "daysFromCivil y m d" 0 UTC]
  by (simp add: localDay_def midnightUTC_def lookup_UTC)

lemma localDay_next_midnightUTC:
  "localDay (Add (midnightUTC (y, m, d)) (24 * Hour)) = daysFromCivil y m d + 1"
proof -
  have "Add (midnightUTC (y, m, d)) (24 * Hour)
      = \<lparr>unixNano = (daysFromCivil y m d + 1) * (24 * Hour) + 0 * Second, location = UTC\<rparr>"
    by (simp add: Add_def midnightUTC_def algebra_simps)
  then show ?thesis
    using unixSec_days [of "daysFromCivil y m d + 1" 0 UTC]
    by (simp add: localDay_def lookup_UTC)
qed

lemma Date_of_DateOf:
  "Date (Year t) (Month t) (Day t) 0 0 0 0 UTC
     = \<lparr>unixNano = localDay t * (24 * Hour), location = UTC\<rparr>"
proof -
  obtain y m d where c: "civilFromDays (localDay t) = (y, m, d)" by (cases "civilFromDays (localDay t)")
  then have "daysFromCivil y m d = localDay t"
    using daysFromCivil_civilFromDays [of "localDay t"] by simp
  then show ?thesis
    using c by (simp add: Year_def Month_def Day_def DateOf_def Date_midnight_UTC midnightUTC_def)
qed

lemma DateOf_midnightUTC:
  assumes "validCivil y m d"
  shows "DateOf (midnightUTC (y, m, d)) = (y, m, d)"
  by (simp add: DateOf_def localDay_midnightUTC civil_roundtrip [OF assms])

lemma parse_civil_ymd:
  "parse_civil tok = Some (y, m, d) \<longleftrightarrow>
     parse_ymd tok = Some (y, m, d, []) \<and> 1 \<le> d \<and> d \<le> daysIn m y"
  by (auto simp: parse_civil_def split: Option.bind_splits if_splits)

lemma parse_ymd_month:
  "parse_ymd tok = Some (y, m, d, rest) \<Longrightarrow> 1 \<le> m \<and> m \<le> 12"
  by (auto simp: parse_ymd_def split: Option.bind_splits if_splits)

lemma parse_civil_valid: "parse_civil tok = Some (y, m, d) \<Longrightarrow> validCivil y m d"
  using parse_ymd_month [of tok y m d "[]"] by (simp add: parse_civil_ymd validCivil_def)

lemma parse_civil_not_rfc3339: "parse_civil tok = Some (y, m, d) \<Longrightarrow> parse_rfc3339 tok = None"
  by (simp add: parse_civil_ymd parse_rfc3339_def)

lemma parse_civil_nonempty: "parse_civil tok = Some c \<Longrightarrow> tok \<noteq> []"
  by (auto simp: parse_civil_def parse_ymd_def)

lemma parse_rfc3339_nonempty: "parse_rfc3339 tok = Some t \<Longrightarrow> tok \<noteq> []"
  by (auto simp: parse_rfc3339_def parse_ymd_def)

lemma civil_token_bounds:
  assumes "parse_civil tok = Some (y, m, d)"
  shows "parseStart tok dflt = Return (midnightUTC (y, m, d))"
    and "parseStartHTTP tok dflt = midnightUTC (y, m, d)"
    and "parseEnd tok dflt = Return (midnightUTC (nextCivil (y, m, d)))"
    and "parseEndHTTP tok dflt = midnightUTC (nextCivil (y, m, d))"
proof -
  have v: "validCivil y m d" by (rule parse_civil_valid [OF assms])
  have ne: "tok \<noteq> []" by (rule parse_civil_nonempty [OF assms])
  have r: "parse_rfc3339 tok = None" by (rule parse_civil_not_rfc3339 [OF assms])
  have p: "parse_date tok = Some (midnightUTC (y, m, d))"
    using assms by (simp add: parse_date_def Date_midnight_UTC)
  obtain y' m' d' where n: "nextCivil (y, m, d) = (y', m', d')"
    by (cases "nextCivil (y, m, d)")
  have nd: "daysFromCivil y' m' d' = daysFromCivil y m d + 1"
    using nextCivil_days [OF v] n by simp
  have s: "Date (Year (midnightUTC (y, m, d))) (Month (midnightUTC (y, m, d)))
             (Day (midnightUTC (y, m, d))) 0 0 0 0 UTC = midnightUTC (y, m, d)"
    unfolding Date_of_DateOf localDay_midnightUTC by (simp add: midnightUTC_def)
  have e: "Date (Year (Add (midnightUTC (y, m, d)) (24 * Hour)))
             (Month (Add (midnightUTC (y, m, d)) (24 * Hour)))
             (Day (Add (midnightUTC (y, m, d)) (24 * Hour))) 0 0 0 0 UTC
           = midnightUTC (nextCivil (y, m, d))"
    unfolding Date_of_DateOf localDay_next_midnightUTC n by (simp add: nd midnightUTC_def)
  show "parseStart tok dflt = Return (midnightUTC (y, m, d))"
    and "parseStartHTTP tok dflt = midnightUTC (y, m, d)"
    using ne r p s by (simp_all add: parseStart_def parseStartHTTP_def)
  show "parseEnd tok dflt = Return (midnightUTC (nextCivil (y, m, d)))"
    and "parseEndHTTP tok dflt = midnightUTC (nextCivil (y, m, d))"
    using ne r p e by (simp_all add: parseEnd_def parseEndHTTP_def Let_def)
qed

lemma rfc3339_token_bounds:
  assumes "parse_rfc3339 ts = Some t"
  shows "parseStart ts dflt = Return t \<and> parseEnd ts dflt = Return t
       \<and> parseStartHTTP ts dflt = t \<and> parseEndHTTP ts dflt = t"
  using assms parse_rfc3339_nonempty [OF assms]
  by (simp add: parseStart_def parseEnd_def parseStartHTTP_def parseEndHTTP_def)

lemmas parse_eval = parse_civil_def parse_ymd_def parse_rfc3339_def parse_date_def parse_frac_def
  parse_zone_def isDigit_def digitVal_def digitsVal_def daysIn_def daysBefore_def isLeap_def

text \<open>
  C5. For every token that is a calendar date \<open>YYYY-MM-DD\<close>, in the command-line and the
  HTTP parsers alike: as a start boundary it resolves to midnight UTC of that date, as an
  end boundary to midnight UTC of the next calendar date. Each result lies on the date it
  is named after and is a whole number of days from the epoch. A token that is an RFC3339
  timestamp resolves to the instant it parses to, unchanged.
\<close>

theorem window_parser_dates:
  assumes "parse_civil tok = Some (y, m, d)"
  shows "parseStart tok dflt = Return (midnightUTC (y, m, d))
       \<and> parseStartHTTP tok dflt = midnightUTC (y, m, d)
       \<and> parseEnd tok dflt = Return (midnightUTC (nextCivil (y, m, d)))
       \<and> parseEndHTTP tok dflt = midnightUTC (nextCivil (y, m, d))
       \<and> DateOf (midnightUTC (y, m, d)) = (y, m, d)
       \<and> DateOf (midnightUTC (nextCivil (y, m, d))) = nextCivil (y, m, d)
       \<and> unixNano (midnightUTC (y, m, d)) mod (24 * Hour) = 0
       \<and> unixNano (midnightUTC (nextCivil (y, m, d))) mod (24 * Hour) = 0
       \<and> (\<forall>ts t. parse_rfc3339 ts = Some t \<longrightarrow>
             parseStart ts dflt = Return t \<and> parseEnd ts dflt = Return t
           \<and> parseStartHTTP ts dflt = t \<and> parseEndHTTP ts dflt = t)"
proof -
  have v: "validCivil y m d" by (rule parse_civil_valid [OF assms])
  obtain y' m' d' where n: "nextCivil (y, m, d) = (y', m', d')"
    by (cases "nextCivil (y, m, d)")
  have nv: "validCivil y' m' d'"
    using nextCivil_days [OF v] n by simp
  have dates: "DateOf (midnightUTC (y, m, d)) = (y, m, d)"
      "DateOf (midnightUTC (nextCivil (y, m, d))) = nextCivil (y, m, d)"
    using DateOf_midnightUTC [OF v] DateOf_midnightUTC [OF nv] n by simp_all
  have mids: "unixNano (midnightUTC (y, m, d)) mod (24 * Hour) = 0"
      "unixNano (midnightUTC (nextCivil (y, m, d))) mod (24 * Hour) = 0"
    by (simp_all add: midnightUTC_def n)
  show ?thesis
    using civil_token_bounds [OF assms, of dflt] dates mids rfc3339_token_bounds [of _ _ dflt]
    by blast
qed

theorem window_parser_dates_witness:
  "parse_civil ''2025-08-15'' = Some (2025, 8, 15)
   \<and> parseEnd ''2025-08-15'' (at_unix 0) = Return (at_unix 1755302400)
   \<and> parseEndHTTP ''2025-08-15'' (at_unix 0) = at_unix 1755302400
   \<and> parse_civil ''2025-08-01'' = Some (2025, 8, 1)
   \<and> parseStart ''2025-08-01'' (at_unix 0) = Return (at_unix 1754006400)
   \<and> parseStartHTTP ''2025-08-01'' (at_unix 0) = at_unix 1754006400
   \<and> parse_rfc3339 ''2025-08-16T00:00:00Z'' = Some (at_unix 1755302400)
   \<and> parseEnd ''2025-08-16T00:00:00Z'' (at_unix 0) = Return (at_unix 1755302400)"
proof -
  have a: "parse_civil ''2025-08-15'' = Some (2025, 8, 15)"
    and b: "parse_civil ''2025-08-01'' = Some (2025, 8, 1)"
    by (simp_all add: parse_eval)
  have n: "nextCivil (2025, 8, 15) = (2025, 8, 16)"
    by (simp add: nextCivil_def parse_eval)
  have m: "midnightUTC (2025, 8, 16) = at_unix 1755302400"
      "midnightUTC (2025, 8, 1) = at_unix 1754006400"
    by (simp_all add: midnightUTC_def at_unix_def daysFromCivil_def daysBeforeYear_def
        monthStart_def unixEpochDay_def Hour_def parse_eval)
  have r: "parse_rfc3339 ''2025-08-16T00:00:00Z'' = Some (at_unix 1755302400)"
    by (simp add: parse_eval Date_def lookup_UTC at_unix_def daysFromCivil_def
        daysBeforeYear_def monthStart_def unixEpochDay_def)
  show ?thesis
    using window_parser_dates [OF a, of "at_unix 0"] window_parser_dates [OF b, of "at_unix 0"]
      a b r
    by (simp add: n m)
qed



text \<open>
  C10. With an empty start token the start is 24 hours before the end the end token
  resolved to, at the command line and at the HTTP trigger; an empty end token resolves to
  the current time.
\<close>

theorem default_start_is_end_minus_24h:
  "(\<forall>toTime. parseEnd to_tok now = Return toTime \<longrightarrow>
       main_window [] to_tok now = Return (Add toTime (- 24 * Hour), toTime))
   \<and> parseEnd [] now = Return now
   \<and> http_window [] to_tok now
       = (Add (parseEndHTTP to_tok now) (- 24 * Hour), parseEndHTTP to_tok now)
   \<and> parseEndHTTP [] now = now
   \<and> win (fst (sync_handler uc \<lparr>req_method = ''GET'', q_from = [], q_to = to_tok\<rparr> now a))
       = Some (Add (parseEndHTTP to_tok now) (- 24 * Hour), parseEndHTTP to_tok now)
   \<and> unixNano (Add t (- 24 * Hour)) = unixNano t - 24 * Hour
   \<and> location (Add t (- 24 * Hour)) = location t"
  by (auto simp: main_window_def http_window_def parseStart_def parseStartHTTP_def
      parseEnd_def parseEndHTTP_def sync_handler_def Add_def Let_def split: prod.splits option.splits)

theorem default_start_is_end_minus_24h_witness:
  "parseEnd ''2025-08-15'' (at_unix 1761000000) = Return (at_unix 1755302400)
   \<and> main_window [] ''2025-08-15'' (at_unix 1761000000)
       = Return (at_unix 1755216000, at_unix 1755302400)
   \<and> main_window [] [] (at_unix 1761000000) = Return (at_unix 1760913600, at_unix 1761000000)"
proof -
  have a: "parse_civil ''2025-08-15'' = Some (2025, 8, 15)"
    by (simp add: parse_eval)
  have n: "nextCivil (2025, 8, 15) = (2025, 8, 16)"
    by (simp add: nextCivil_def parse_eval)
  have m: "midnightUTC (2025, 8, 16) = at_unix 1755302400"
    by (simp add: midnightUTC_def at_unix_def daysFromCivil_def daysBeforeYear_def
        monthStart_def unixEpochDay_def Hour_def parse_eval)
  have e: "parseEnd ''2025-08-15'' (at_unix 1761000000) = Return (at_unix 1755302400)"
    using civil_token_bounds(3) [OF a] by (simp add: n m)
  have d: "Add (at_unix 1755302400) (- (24 * Hour)) = at_unix 1755216000"
      "Add (at_unix 1761000000) (- (24 * Hour)) = at_unix 1760913600"
    by (simp_all add: Add_def at_unix_def Hour_def Second_def)
  have e0: "parseEnd [] (at_unix 1761000000) = Return (at_unix 1761000000)"
    by (simp add: parseEnd_def)
  show ?thesis
    using default_start_is_end_minus_24h [where to_tok = "''2025-08-15''"
        and now = "at_unix 1761000000" and uc = "use_case (source_of (Inr []) (Inr []))"
        and a = idle_app and t = "at_unix 0"]
      default_start_is_end_minus_24h [where to_tok = "[]"
        and now = "at_unix 1761000000" and uc = "use_case (source_of (Inr []) (Inr []))"
        and a = idle_app and t = "at_unix 0"] e e0
    by (simp add: d)
qed

section \<open>Properties of the daily scheduler\<close>

text \<open>
  In a location with one fixed offset, \<open>nextMidnight t\<close> is the start of the next local
  day: strictly after \<open>t\<close>, at most 24 hours later.
\<close>

lemma lookup_FixedZone: "lookup (FixedZone off) s = (off, alpha, omega)"
  by (simp add: lookup_def FixedZone_def)

lemma Date_civilFromDays_fixed:
  assumes "civilFromDays n = (y, m, d)"
  shows "Date y m d 0 0 0 0 (FixedZone off)
           = \<lparr>unixNano = (n * 86400 - off) * Second, location = FixedZone off\<rparr>"
proof -
  have "daysFromCivil y m d = n" using daysFromCivil_civilFromDays [of n] assms by simp
  then show ?thesis by (simp add: Date_def lookup_FixedZone Let_def)
qed

lemma nextMidnight_fixed_zone:
  assumes "location t = FixedZone off"
  shows "After (nextMidnight t) t
       \<and> unixNano (nextMidnight t) \<le> unixNano t + 24 * Hour
       \<and> unixNano (nextMidnight t) = ((localDay t + 1) * 86400 - off) * Second
       \<and> location (nextMidnight t) = location t"
proof -
  define s where "s = unixNano t div Second"
  define f where "f = unixNano t mod Second"
  define n where "n = (s + off) div 86400"
  define r where "r = (s + off) mod 86400"
  have sp: "0 < Second" by (simp add: Second_def)
  have t: "unixNano t = s * Second + f" and f: "0 \<le> f" "f < Second"
    using sp by (simp_all add: s_def f_def)
  have l: "s + off = n * 86400 + r" and rb: "0 \<le> r" "r < 86400"
    by (simp_all add: n_def r_def)
  obtain y m d where c: "civilFromDays n = (y, m, d)" by (cases "civilFromDays n")
  have dt: "DateOf t = (y, m, d)"
    using c by (simp add: DateOf_def localDay_def unixSec_def assms lookup_FixedZone s_def n_def)
  define mid where "mid = (n * 86400 - off) * Second"
  have md: "Date y m d 0 0 0 0 (location t) = \<lparr>unixNano = mid, location = FixedZone off\<rparr>"
    unfolding assms mid_def by (rule Date_civilFromDays_fixed [OF c])
  have "n * 86400 - off = s - r" using l by linarith
  then have ms: "mid = (s - r) * Second" by (simp add: mid_def)
  have tm: "unixNano t - mid = r * Second + f" unfolding t ms by (simp add: algebra_simps)
  have "r \<le> 86399" using rb by simp
  then have "r * Second \<le> 86399 * Second" using sp by (intro mult_right_mono) simp_all
  then have up: "unixNano t - mid < 86400 * Second" using tm f by linarith
  have "0 \<le> r * Second" using rb sp by (intro mult_nonneg_nonneg) simp_all
  then have lo: "mid \<le> unixNano t" using tm f by linarith
  have res: "nextMidnight t = \<lparr>unixNano = mid + 24 * Hour, location = FixedZone off\<rparr>"
    unfolding nextMidnight_def dt using lo
    by (auto simp: md After_def Equal_def Add_def Let_def)
  have h: "24 * Hour = 86400 * Second" by (simp add: Hour_def)
  have "mid + 24 * Hour = ((n + 1) * 86400 - off) * Second"
    unfolding h mid_def by (simp add: algebra_simps)
  moreover have "localDay t = n"
    by (simp add: localDay_def unixSec_def assms lookup_FixedZone s_def n_def)
  ultimately have ex: "unixNano (nextMidnight t) = ((localDay t + 1) * 86400 - off) * Second"
    unfolding res by simp
  show ?thesis
    using ex up lo unfolding res h by (simp add: After_def assms)
qed

text \<open>
  C8. The claim is that \<open>nextMidnight t\<close> is the next local midnight strictly after \<open>t\<close>
  for every local time \<open>t\<close>. The code adds 24 hours to the start of the local day, and a
  local day on which the clock is set back lasts 25 hours. At 23:30 on 2025-10-26 in
  Central European time the next local midnight is 2025-10-27T00:00:00+01:00 (Unix
  second 1761519600); \<open>nextMidnight\<close> returns 2025-10-26T23:00:00+01:00 (Unix second
  1761516000), which is not a midnight and is not after \<open>t\<close>.
\<close>

theorem nextMidnight_after_autumn_transition:
  "DateOf \<lparr>unixNano = 1761517800 * Second, location = Berlin_2025\<rparr> = (2025, 10, 26)
   \<and> Date 2025 10 27 0 0 0 0 Berlin_2025
       = \<lparr>unixNano = 1761519600 * Second, location = Berlin_2025\<rparr>
   \<and> nextMidnight \<lparr>unixNano = 1761517800 * Second, location = Berlin_2025\<rparr>
       = \<lparr>unixNano = 1761516000 * Second, location = Berlin_2025\<rparr>
   \<and> \<not> After (nextMidnight \<lparr>unixNano = 1761517800 * Second, location = Berlin_2025\<rparr>)
         \<lparr>unixNano = 1761517800 * Second, location = Berlin_2025\<rparr>"
  by code_simp

section \<open>Properties of the MySQL sink\<close>






















section \<open>Properties of the schema migrator\<close>







lemma mdb_update_nothing: "d\<lparr>ledger := ledger d @ map g [], ran := ran d @ map h []\<rparr> = d"
  by simp




section \<open>Properties of the sync use case\<close>

text \<open>
  C3. For every window, a run fetches the projects first. When that fetch fails, the run
  returns the error having made no persistence call and leaving the store as it was. When
  the fetch of the time entries fails (the projects having been persisted, or there being
  none), the run returns the error without a call to \<open>SyncEntries\<close>, and the store is the
  one the project persistence left.
\<close>

theorem Run_fetch_failure:
  assumes "Toggl uc = Some toggl" and "Sink uc = Some sink"
  shows "(ListProjects toggl = Inl err \<longrightarrow>
            Run uc t1 t2 w = (Some err, called CallListProjects w)
          \<and> store (snd (Run uc t1 t2 w)) = store w
          \<and> persistence_calls (calls (snd (Run uc t1 t2 w))) = persistence_calls (calls w))
       \<and> (ListProjects toggl = Inr projects
          \<and> (projects = [] \<or> fst (SyncProjects sink projects (store w)) = None)
          \<and> ListTimeEntries toggl t1 t2 = Inl err \<longrightarrow>
            fst (Run uc t1 t2 w) = Some err
          \<and> entry_calls (calls (snd (Run uc t1 t2 w))) = entry_calls (calls w)
          \<and> store (snd (Run uc t1 t2 w)) =
              (if projects = [] then store w else snd (SyncProjects sink projects (store w)))
          \<and> calls (snd (Run uc t1 t2 w)) =
              calls w @ [CallListProjects] @ (if projects = [] then [] else [CallSyncProjects projects])
                @ [CallListTimeEntries t1 t2])"
  using assms
  by (auto simp: Run_def Let_def called_def persistence_calls_def entry_calls_def
      split: prod.splits option.splits sum.splits)

theorem Run_fetch_failure_witness:
  "ListProjects (source_of (Inl ''toggl: unexpected status 403: '') (Inr [dev_work]))
     = Inl ''toggl: unexpected status 403: ''
   \<and> Run (use_case (source_of (Inl ''toggl: unexpected status 403: '') (Inr [dev_work])))
         (at_unix 1754035200) (at_unix 1754053200) fresh_world
     = (Some ''toggl: unexpected status 403: '', called CallListProjects fresh_world)
   \<and> ListTimeEntries (source_of (Inr [internal_project]) (Inl ''context deadline exceeded''))
         (at_unix 1754035200) (at_unix 1754053200) = Inl ''context deadline exceeded''
   \<and> fst (Client_SyncProjects None [internal_project] empty_db) = None
   \<and> fst (Run (use_case (source_of (Inr [internal_project]) (Inl ''context deadline exceeded'')))
         (at_unix 1754035200) (at_unix 1754053200) fresh_world) = Some ''context deadline exceeded''
   \<and> store (snd (Run (use_case (source_of (Inr [internal_project]) (Inl ''context deadline exceeded'')))
         (at_unix 1754035200) (at_unix 1754053200) fresh_world))
     = snd (Client_SyncProjects None [internal_project] empty_db)"
proof -
  let ?e = "''toggl: unexpected status 403: ''" and ?c = "''context deadline exceeded''"
  let ?sink = "mysql_sink marshal_plain None"
  let ?a = "source_of (Inl ?e) (Inr [dev_work])"
  let ?b = "source_of (Inr [internal_project]) (Inl ?c)"
  have wa: "Toggl (use_case ?a) = Some ?a" "Sink (use_case ?a) = Some ?sink"
    and wb: "Toggl (use_case ?b) = Some ?b" "Sink (use_case ?b) = Some ?sink"
    by (simp_all add: use_case_def)
  have pa: "ListProjects ?a = Inl ?e"
    and pb: "ListProjects ?b = Inr [internal_project]"
    and eb: "ListTimeEntries ?b (at_unix 1754035200) (at_unix 1754053200) = Inl ?c"
    by (simp_all add: source_of_def)
  have ok: "fst (Client_SyncProjects None [internal_project] empty_db) = None"
    by (simp add: Client_SyncProjects_def upsert_batch_def exec_fault_def)
  have sk: "SyncProjects ?sink = Client_SyncProjects None" "store fresh_world = empty_db"
    by (simp_all add: mysql_sink_def fresh_world_def)
  have ra: "Run (use_case ?a) (at_unix 1754035200) (at_unix 1754053200) fresh_world
              = (Some ?e, called CallListProjects fresh_world)"
    using Run_fetch_failure [OF wa] pa by blast
  have rb: "fst (Run (use_case ?b) (at_unix 1754035200) (at_unix 1754053200) fresh_world) = Some ?c
      \<and> store (snd (Run (use_case ?b) (at_unix 1754035200) (at_unix 1754053200) fresh_world))
          = snd (Client_SyncProjects None [internal_project] empty_db)"
    using Run_fetch_failure [OF wb, where projects = "[internal_project]" and err = ?c
        and ?t1.0 = "at_unix 1754035200" and ?t2.0 = "at_unix 1754053200" and w = fresh_world]
      pb eb ok sk by simp
  show ?thesis using pa ra eb ok rb by blast
qed

text \<open>
  C9. When the source returns no projects, the run makes no call to \<open>SyncProjects\<close>.
  When the source returns no entries (the fetch having been reached: the projects were
  persisted, or there were none), the run makes no call to \<open>SyncEntries\<close> and returns
  success.
\<close>

theorem Run_zero_records:
  assumes "Toggl uc = Some toggl" and "Sink uc = Some sink"
  shows "(ListProjects toggl = Inr [] \<longrightarrow>
            project_calls (calls (snd (Run uc t1 t2 w))) = project_calls (calls w))
       \<and> (ListProjects toggl = Inr projects
          \<and> (projects = [] \<or> fst (SyncProjects sink projects (store w)) = None)
          \<and> ListTimeEntries toggl t1 t2 = Inr [] \<longrightarrow>
            fst (Run uc t1 t2 w) = None
          \<and> entry_calls (calls (snd (Run uc t1 t2 w))) = entry_calls (calls w))"
  using assms
  by (auto simp: Run_def Let_def called_def project_calls_def entry_calls_def
      split: prod.splits option.splits sum.splits)

theorem Run_zero_records_witness:
  "ListProjects (source_of (Inr []) (Inr [])) = Inr []
   \<and> ListTimeEntries (source_of (Inr []) (Inr [])) (at_unix 1754035200) (at_unix 1754053200) = Inr []
   \<and> project_calls (calls (snd (Run (use_case (source_of (Inr []) (Inr [])))
         (at_unix 1754035200) (at_unix 1754053200) fresh_world))) = []
   \<and> entry_calls (calls (snd (Run (use_case (source_of (Inr []) (Inr [])))
         (at_unix 1754035200) (at_unix 1754053200) fresh_world))) = []
   \<and> fst (Run (use_case (source_of (Inr []) (Inr [])))
         (at_unix 1754035200) (at_unix 1754053200) fresh_world) = None"
proof -
  let ?src = "source_of (Inr []) (Inr [])"
  have w: "Toggl (use_case ?src) = Some ?src"
      "Sink (use_case ?src) = Some (mysql_sink marshal_plain None)"
    by (simp_all add: use_case_def)
  have p: "ListProjects ?src = Inr []"
    and e: "ListTimeEntries ?src (at_unix 1754035200) (at_unix 1754053200) = Inr []"
    by (simp_all add: source_of_def)
  have c: "project_calls (calls fresh_world) = []" "entry_calls (calls fresh_world) = []"
    by (simp_all add: fresh_world_def project_calls_def entry_calls_def)
  show ?thesis
    using Run_zero_records [OF w, where projects = "[]" and ?t1.0 = "at_unix 1754035200"
        and ?t2.0 = "at_unix 1754053200" and w = fresh_world] p e c
    by simp
qed

section \<open>Properties of the single-flight guard\<close>

text \<open>
  C4. After an admitted \<open>RunOnce\<close> returns, whatever the sync body returned, the flag is
  0 again and the next \<open>tryBeginRun\<close> succeeds; the outcome and the effects are those of
  the sync body. A rejected \<open>RunOnce\<close> leaves the whole state, the flag included, as it was.
\<close>

theorem RunOnce_releases_guard:
  "(running a = 0 \<longrightarrow>
      running (snd (RunOnce uc t1 t2 a)) = 0
    \<and> fst (tryBeginRun (snd (RunOnce uc t1 t2 a)))
    \<and> fst (RunOnce uc t1 t2 a) = fst (Run uc t1 t2 (world a))
    \<and> world (snd (RunOnce uc t1 t2 a)) = snd (Run uc t1 t2 (world a)))
 \<and> (running a \<noteq> 0 \<longrightarrow>
      snd (RunOnce uc t1 t2 a) = a
    \<and> fst (RunOnce uc t1 t2 a) = Some already_running)"
  by (auto simp: RunOnce_def tryBeginRun_def endRun_def Let_def split: prod.splits)

theorem RunOnce_releases_guard_witness:
  "running idle_app = 0
   \<and> running (snd (RunOnce (use_case (source_of (Inl ''missing api token'') (Inr [])))
        (at_unix 1754035200) (at_unix 1754053200) idle_app)) = 0
   \<and> fst (RunOnce (use_case (source_of (Inl ''missing api token'') (Inr [])))
        (at_unix 1754035200) (at_unix 1754053200) idle_app) = Some ''missing api token''
   \<and> running busy_app \<noteq> 0
   \<and> snd (RunOnce (use_case (source_of (Inl ''missing api token'') (Inr [])))
        (at_unix 1754035200) (at_unix 1754053200) busy_app) = busy_app"
proof -
  let ?uc = "use_case (source_of (Inl ''missing api token'') (Inr []))"
  have i: "running idle_app = 0" and b: "running busy_app \<noteq> 0"
    by (simp_all add: idle_app_def busy_app_def)
  have r: "fst (Run ?uc (at_unix 1754035200) (at_unix 1754053200) (world idle_app))
             = Some ''missing api token''"
    by (simp add: Run_def use_case_def source_of_def)
  show ?thesis
    using RunOnce_releases_guard [of idle_app ?uc "at_unix 1754035200" "at_unix 1754053200"]
      RunOnce_releases_guard [of busy_app ?uc "at_unix 1754035200" "at_unix 1754053200"] i b r
    by simp
qed

text \<open>
  C1. While the flag is set, \<open>RunOnce\<close> returns the error \<open>sync already running\<close> and
  leaves the state untouched: no call on the source or the sink is recorded and the store
  is as it was. The \<open>/sync\<close> handler answers it with status 409, and answers every run
  error with another message with status 500.
\<close>

theorem RunOnce_rejects_overlap:
  assumes "req_method r = ''GET'' \<or> req_method r = ''POST''"
  shows "(running a \<noteq> 0 \<longrightarrow>
           RunOnce uc t1 t2 a = (Some ''sync already running'', a)
         \<and> sync_handler uc r now a =
             (\<lparr>code = 409, status = ''error'', err_text = Some ''sync already running'',
               win = Some (http_window (q_from r) (q_to r) now)\<rparr>, a))
       \<and> (\<forall>e. fst (RunOnce uc (fst (http_window (q_from r) (q_to r) now))
                     (snd (http_window (q_from r) (q_to r) now)) a) = Some e
              \<and> e \<noteq> ''sync already running'' \<longrightarrow>
              code (fst (sync_handler uc r now a)) = 500)"
  using assms
  by (auto simp: RunOnce_def tryBeginRun_def endRun_def Let_def sync_handler_def
      http_window_def already_running_def split: prod.splits option.splits)

theorem RunOnce_rejects_overlap_witness:
  "running busy_app \<noteq> 0
   \<and> RunOnce (use_case (source_of (Inl ''missing api token'') (Inr [])))
        (at_unix 1754035200) (at_unix 1754053200) busy_app = (Some ''sync already running'', busy_app)
   \<and> code (fst (sync_handler (use_case (source_of (Inl ''missing api token'') (Inr [])))
        \<lparr>req_method = ''POST'', q_from = [], q_to = []\<rparr> (at_unix 1754053200) busy_app)) = 409
   \<and> code (fst (sync_handler (use_case (source_of (Inl ''missing api token'') (Inr [])))
        \<lparr>req_method = ''POST'', q_from = [], q_to = []\<rparr> (at_unix 1754053200) idle_app)) = 500"
proof -
  let ?uc = "use_case (source_of (Inl ''missing api token'') (Inr []))"
  let ?r = "\<lparr>req_method = ''POST'', q_from = [], q_to = []\<rparr>"
  let ?now = "at_unix 1754053200"
  have m: "req_method ?r = ''GET'' \<or> req_method ?r = ''POST''" by simp
  have b: "running busy_app \<noteq> 0" by (simp add: busy_app_def)
  have e: "fst (RunOnce ?uc (fst (http_window (q_from ?r) (q_to ?r) ?now))
                  (snd (http_window (q_from ?r) (q_to ?r) ?now)) idle_app) = Some ''missing api token''"
    by (simp add: RunOnce_def tryBeginRun_def idle_app_def Run_def use_case_def source_of_def)
  have "code (fst (sync_handler ?uc ?r ?now idle_app)) = 500"
    using RunOnce_rejects_overlap [OF m, of idle_app ?uc _ _ ?now] e by simp
  moreover have "RunOnce ?uc (at_unix 1754035200) (at_unix 1754053200) busy_app
        = (Some ''sync already running'', busy_app)
      \<and> code (fst (sync_handler ?uc ?r ?now busy_app)) = 409"
    using RunOnce_rejects_overlap [OF m, of busy_app ?uc "at_unix 1754035200" "at_unix 1754053200" ?now] b
    by simp
  ultimately show ?thesis using b by blast
qed

end
